theory Spec2Isabelle
  imports Main "HOL-Library.Word"
begin

section \<open>JavaScript strings\<close>

text \<open>
  A JavaScript string is a sequence of UTF-16 code units; \<open>s.length\<close> counts them and
  \<open>===\<close> compares them one by one. Literals of the source are written \<open>str ''...''\<close>.
\<close>

type_synonym jsstring = "16 word list"

definition str :: "string \<Rightarrow> jsstring" where
  "str s = map (\<lambda>c. of_nat (of_char c)) s"

text \<open>
  \<open>String.prototype.trim\<close> removes the WhiteSpace and LineTerminator code points of
  ECMAScript from both ends. All of them lie in the basic plane, so each is one code unit.
\<close>

definition isWhiteSpace :: "16 word \<Rightarrow> bool" where
  "isWhiteSpace u =
     (u = 0x9 \<or> u = 0xA \<or> u = 0xB \<or> u = 0xC \<or> u = 0xD \<or> u = 0x20 \<or> u = 0xA0 \<or>
      u = 0x1680 \<or> (0x2000 \<le> u \<and> u \<le> 0x200A) \<or> u = 0x2028 \<or> u = 0x2029 \<or>
      u = 0x202F \<or> u = 0x205F \<or> u = 0x3000 \<or> u = 0xFEFF)"

definition trim :: "jsstring \<Rightarrow> jsstring" where
  "trim s = rev (dropWhile isWhiteSpace (rev (dropWhile isWhiteSpace s)))"

section \<open>The question form (component \<open>Question\<close>)\<close>

subsection \<open>State\<close>

text \<open>The draft held by \<open>useForm\<close>: \<open>defaultValues\<close> gives its three fields.\<close>

record form_values =
  title :: jsstring
  explanation :: jsstring
  tags :: "jsstring list"

text \<open>A field error as \<open>form.setError\<close> receives it.\<close>

record field_error =
  etype :: jsstring
  message :: jsstring

text \<open>The argument of \<open>createQuestion\<close>. \<open>'v\<close> is the type of host values
  (what \<open>JSON.parse\<close> returns, what is thrown, what a promise rejects with).\<close>

record 'v payload =
  p_title :: jsstring
  p_content :: jsstring
  p_tags :: "jsstring list"
  p_author :: 'v
  p_path :: jsstring

text \<open>
  Everything the component reads and writes: the form (\<open>fvalues\<close>, \<open>errors\<close> by field
  name), the text in the tag input element, the \<open>submitting\<close> flag of \<open>useState\<close>,
  and the effects on the collaborators, each as the list of calls made so far:
  \<open>router.push\<close>, \<open>console.log\<close> and \<open>createQuestion\<close>.
\<close>

record 'v question =
  fvalues :: form_values
  errors :: "jsstring \<rightharpoonup> field_error"
  tag_input :: jsstring
  submitting :: bool
  navigations :: "jsstring list"
  console :: "'v list"
  requests :: "'v payload list"

text \<open>
  What the component is given: the prop \<open>mongoUserId\<close>, the value of \<open>usePathname\<close>,
  the host's \<open>JSON.parse\<close> (\<open>Inl\<close> is the value thrown) and \<open>QuestionSchema\<close> of
  \<open>@/lib/validation\<close> behind \<open>zodResolver\<close>: the list of field names with their
  errors, empty when the draft is valid.
\<close>

record 'v env =
  mongoUserId :: jsstring
  pathname :: jsstring
  JSON_parse :: "jsstring \<Rightarrow> 'v + 'v"
  QuestionSchema :: "form_values \<Rightarrow> (jsstring \<times> field_error) list"

text \<open>The \<open>field\<close> object a \<open>FormField\<close> render passes to the handlers.\<close>

record field =
  name :: jsstring
  fvalue :: "jsstring list"

definition initial :: "'v question" where
  "initial =
     \<lparr>fvalues = \<lparr>title = [], explanation = [], tags = []\<rparr>,
      errors = Map.empty, tag_input = [], submitting = False,
      navigations = [], console = [], requests = []\<rparr>"

subsection \<open>The form library's operations used by the handlers\<close>

definition setValue_tags :: "jsstring list \<Rightarrow> 'v question \<Rightarrow> 'v question" where
  "setValue_tags ts q = q\<lparr>fvalues := (fvalues q)\<lparr>tags := ts\<rparr>\<rparr>"

definition setError :: "jsstring \<Rightarrow> field_error \<Rightarrow> 'v question \<Rightarrow> 'v question" where
  "setError f e q = q\<lparr>errors := (errors q)(f \<mapsto> e)\<rparr>"

definition clearErrors :: "jsstring \<Rightarrow> 'v question \<Rightarrow> 'v question" where
  "clearErrors f q = q\<lparr>errors := (errors q)(f := None)\<rparr>"

text \<open>\<open>form.trigger(f)\<close> validates one field against the schema and shows its error.\<close>

definition trigger :: "'v env \<Rightarrow> jsstring \<Rightarrow> 'v question \<Rightarrow> 'v question" where
  "trigger env f q = q\<lparr>errors := (errors q)(f := map_of (QuestionSchema env (fvalues q)) f)\<rparr>"

subsection \<open>The tag editor\<close>

text \<open>
  \<open>handleInoutKeyDown(e, field)\<close>. The handler is bound to the tag input only, so
  \<open>e.target\<close> is that element and \<open>e.target.value\<close> is \<open>tag_input\<close>. The first
  argument is \<open>e.key\<close>; the Boolean of the result says whether \<open>e.preventDefault()\<close> was
  called.
\<close>

definition handleInoutKeyDown ::
  "'v env \<Rightarrow> jsstring \<Rightarrow> field \<Rightarrow> 'v question \<Rightarrow> bool \<times> 'v question" where
  "handleInoutKeyDown env k fld q =
     (if k = str ''Enter'' \<and> name fld = str ''tags'' then
        (let tag = trim (tag_input q) in
         if tag \<noteq> [] then
           if length tag > 15 then
             (True, setError (str ''tags'')
                      \<lparr>etype = str ''max'',
                       message = str ''Tag length must be less than 15 characters''\<rparr> q)
           else if tag \<notin> set (fvalue fld) then
             (True, clearErrors (str ''tags'')
                      ((setValue_tags (fvalue fld @ [tag]) q)\<lparr>tag_input := []\<rparr>))
           else (True, q)
         else (True, trigger env (str ''tags'') q))
      else (False, q))"

text \<open>\<open>handleTagRemove(tag, field)\<close>.\<close>

definition handleTagRemove :: "jsstring \<Rightarrow> field \<Rightarrow> 'v question \<Rightarrow> 'v question" where
  "handleTagRemove tag fld q = setValue_tags (filter (\<lambda>t. t \<noteq> tag) (fvalue fld)) q"

text \<open>The \<open>field\<close> of the render of the tags \<open>FormField\<close> in state \<open>q\<close>.\<close>

definition tags_field :: "'v question \<Rightarrow> field" where
  "tags_field q = \<lparr>name = str ''tags'', fvalue = tags (fvalues q)\<rparr>"

subsection \<open>Asynchronous handlers\<close>

text \<open>
  An \<open>async\<close> function is a tree of what it does next: it returns, throws, performs an
  effect on the component or the router, or calls \<open>createQuestion\<close> and awaits the
  promise; the rest of the function is then a function of how the promise settles
  (\<open>Inl\<close> the rejection, \<open>Inr\<close> fulfilment).
\<close>

datatype 'v action = SetSubmitting bool | RouterPush jsstring | ConsoleLog 'v

datatype 'v prog =
    Return
  | Throw 'v
  | Act "'v action" "'v prog"
  | Await "'v payload" "'v + unit \<Rightarrow> 'v prog"

text \<open>\<open>m; n\<close>\<close>

primrec seq :: "'v prog \<Rightarrow> 'v prog \<Rightarrow> 'v prog" where
  "seq Return n = n"
| "seq (Throw e) n = Throw e"
| "seq (Act a m) n = Act a (seq m n)"
| "seq (Await p k) n = Await p (\<lambda>r. seq (k r) n)"

text \<open>\<open>try { m } catch (error) { h error }\<close>\<close>

primrec try_catch :: "'v prog \<Rightarrow> ('v \<Rightarrow> 'v prog) \<Rightarrow> 'v prog" where
  "try_catch Return h = Return"
| "try_catch (Throw e) h = h e"
| "try_catch (Act a m) h = Act a (try_catch m h)"
| "try_catch (Await p k) h = Await p (\<lambda>r. try_catch (k r) h)"

text \<open>\<open>try { m } finally { fin }\<close>: \<open>fin\<close> runs on both exits, and an exception of
  \<open>m\<close> is thrown again after it.\<close>

primrec try_finally :: "'v prog \<Rightarrow> 'v prog \<Rightarrow> 'v prog" where
  "try_finally Return fin = fin"
| "try_finally (Throw e) fin = seq fin (Throw e)"
| "try_finally (Act a m) fin = Act a (try_finally m fin)"
| "try_finally (Await p k) fin = Await p (\<lambda>r. try_finally (k r) fin)"

primrec perform :: "'v action \<Rightarrow> 'v question \<Rightarrow> 'v question" where
  "perform (SetSubmitting b) q = q\<lparr>submitting := b\<rparr>"
| "perform (RouterPush p) q = q\<lparr>navigations := navigations q @ [p]\<rparr>"
| "perform (ConsoleLog v) q = q\<lparr>console := console q @ [v]\<rparr>"

text \<open>
  \<open>onSubmit(values)\<close>. The argument object of \<open>createQuestion\<close> is built inside the
  \<open>try\<close> block, so \<open>JSON.parse(mongoUserId)\<close> throws there, before the call.
\<close>

definition onSubmit :: "'v env \<Rightarrow> form_values \<Rightarrow> 'v prog" where
  "onSubmit env vals =
     Act (SetSubmitting True)
       (try_finally
          (try_catch
             (case JSON_parse env (mongoUserId env) of
                Inl error \<Rightarrow> Throw error
              | Inr author \<Rightarrow>
                  Await \<lparr>p_title = title vals, p_content = explanation vals,
                         p_tags = tags vals, p_author = author, p_path = pathname env\<rparr>
                    (\<lambda>r. case r of
                       Inl error \<Rightarrow> Throw error
                     | Inr _ \<Rightarrow> Act (RouterPush (str ''/'')) Return))
             (\<lambda>error. Act (ConsoleLog error) Return))
          (Act (SetSubmitting False) Return))"

text \<open>
  \<open>form.handleSubmit(onSubmit)\<close>: the resolver validates the draft, the errors it finds
  replace the form's, and \<open>onSubmit\<close> runs on the values when there are none.
\<close>

definition handleSubmit :: "'v env \<Rightarrow> 'v question \<Rightarrow> 'v prog \<times> 'v question" where
  "handleSubmit env q =
     (let errs = QuestionSchema env (fvalues q)
      in (if errs = [] then onSubmit env (fvalues q) else Return,
          q\<lparr>errors := map_of errs\<rparr>))"

subsection \<open>One submission, run to its end\<close>

text \<open>
  \<open>exec cq m q\<close> runs \<open>m\<close> from \<open>q\<close> to completion, \<open>cq\<close> saying how \<open>createQuestion\<close>
  settles on each payload. The first component is the exception that leaves \<open>m\<close>, if any.
\<close>

primrec exec :: "('v payload \<Rightarrow> 'v + unit) \<Rightarrow> 'v prog \<Rightarrow> 'v question \<Rightarrow> 'v option \<times> 'v question" where
  "exec cq Return = (\<lambda>q. (None, q))"
| "exec cq (Throw e) = (\<lambda>q. (Some e, q))"
| "exec cq (Act a m) = (\<lambda>q. exec cq m (perform a q))"
| "exec cq (Await p k) = (\<lambda>q. exec cq (k (cq p)) (q\<lparr>requests := requests q @ [p]\<rparr>))"

definition submit :: "('v payload \<Rightarrow> 'v + unit) \<Rightarrow> 'v env \<Rightarrow> 'v question \<Rightarrow> 'v option \<times> 'v question" where
  "submit cq env q = (case handleSubmit env q of (m, q') \<Rightarrow> exec cq m q')"

subsection \<open>The component as a transition system\<close>

text \<open>
  Between events the component holds its state and the continuations of the handlers
  suspended at an \<open>await\<close>, one for each outstanding \<open>createQuestion\<close> call.
  \<open>unhandled\<close> collects exceptions that leave a handler. \<open>disabled\<close> is the attribute
  of the submit button in the document, as the last render of the component wrote it:
  \<open>setSubmitting\<close> changes the state, and the button follows at the next render.
\<close>

record 'v sys =
  ui :: "'v question"
  pending :: "('v + unit \<Rightarrow> 'v prog) list"
  unhandled :: "'v list"
  disabled :: bool

definition sys0 :: "'v sys" where
  "sys0 = \<lparr>ui = initial, pending = [], unhandled = [], disabled = False\<rparr>"

text \<open>Run a handler up to its next \<open>await\<close> or its end.\<close>

primrec advance :: "'v prog \<Rightarrow> 'v sys \<Rightarrow> 'v sys" where
  "advance Return = (\<lambda>s. s)"
| "advance (Throw e) = (\<lambda>s. s\<lparr>unhandled := unhandled s @ [e]\<rparr>)"
| "advance (Act a m) = (\<lambda>s. advance m (s\<lparr>ui := perform a (ui s)\<rparr>))"
| "advance (Await p k) =
     (\<lambda>s. s\<lparr>ui := (ui s)\<lparr>requests := requests (ui s) @ [p]\<rparr>, pending := pending s @ [k]\<rparr>)"

text \<open>
  The events: typing in the title input, the editor and the tag input, a key pressed in
  the tag input, a click on the badge of a tag, a submission of the form (a click on the
  submit button, Enter in the title input, or a submit event sent by a script), the
  \<open>i\<close>-th outstanding call settling, and a render of the component after
  \<open>setSubmitting\<close>.
\<close>

datatype 'v event =
    TypeTitle jsstring
  | EditExplanation jsstring
  | TypeTag jsstring
  | KeyDownTag jsstring
  | ClickTag jsstring
  | Submit
  | Settle nat "'v + unit"
  | Render

text \<open>
  The submit button is rendered with \<open>disabled={submitting}\<close>, and a form whose submit
  button is disabled in the document is not submitted, by a click or implicitly. That
  attribute is the only guard: neither \<open>handleSubmit\<close> nor \<open>onSubmit\<close> reads the
  \<open>submitting\<close> state. The awaited validation settles within the event, so the handler
  runs on to the \<open>createQuestion\<close> call before the next event.
\<close>

definition submit_event :: "'v env \<Rightarrow> 'v sys \<Rightarrow> 'v sys" where
  "submit_event env s =
     (if disabled s then s
      else case handleSubmit env (ui s) of (m, q') \<Rightarrow> advance m (s\<lparr>ui := q'\<rparr>))"

fun step :: "'v env \<Rightarrow> 'v event \<Rightarrow> 'v sys \<Rightarrow> 'v sys" where
  "step env (TypeTitle t) s = s\<lparr>ui := (ui s)\<lparr>fvalues := (fvalues (ui s))\<lparr>title := t\<rparr>\<rparr>\<rparr>"
| "step env (EditExplanation x) s =
     s\<lparr>ui := (ui s)\<lparr>fvalues := (fvalues (ui s))\<lparr>explanation := x\<rparr>\<rparr>\<rparr>"
| "step env (TypeTag t) s = s\<lparr>ui := (ui s)\<lparr>tag_input := t\<rparr>\<rparr>"
| "step env (KeyDownTag k) s =
     (case handleInoutKeyDown env k (tags_field (ui s)) (ui s) of
        (prevented, q') \<Rightarrow>
          if k = str ''Enter'' \<and> \<not> prevented then submit_event env (s\<lparr>ui := q'\<rparr>)
          else s\<lparr>ui := q'\<rparr>)"
| "step env (ClickTag t) s =
     (if t \<in> set (tags (fvalues (ui s)))
      then s\<lparr>ui := handleTagRemove t (tags_field (ui s)) (ui s)\<rparr> else s)"
| "step env Submit s = submit_event env s"
| "step env (Settle i r) s =
     (if i < length (pending s)
      then advance ((pending s ! i) r)
             (s\<lparr>pending := take i (pending s) @ drop (Suc i) (pending s)\<rparr>)
      else s)"
| "step env Render s = s\<lparr>disabled := submitting (ui s)\<rparr>"

text \<open>
  \<open>errors\<close> holds what the handlers of this component, \<open>trigger\<close> and \<open>handleSubmit\<close>
  write. The form library also validates a changed field again once the form has been
  submitted; that is not part of \<open>step\<close>, and nothing below reads \<open>errors\<close> along a
  trace.
\<close>

definition run :: "'v env \<Rightarrow> 'v event list \<Rightarrow> 'v sys \<Rightarrow> 'v sys" where
  "run env evs s = foldl (\<lambda>s ev. step env ev s) s evs"


section \<open>The theme provider (context/ThemeProvider)\<close>

text \<open>
  The state of \<open>useState("light")\<close>, the class list of the document element, and the
  dependency array \<open>[mode]\<close> as the effect last saw it (\<open>None\<close> before the first render
  is committed).
\<close>

record theme =
  mode :: jsstring
  classList :: "jsstring set"
  deps :: "jsstring option"

definition theme0 :: "jsstring set \<Rightarrow> theme" where
  "theme0 cl = \<lparr>mode = str ''light'', classList = cl, deps = None\<rparr>"

text \<open>The body of the effect.\<close>

definition effect :: "theme \<Rightarrow> theme" where
  "effect t =
     (if mode t = str ''light''
      then t\<lparr>mode := str ''dark'', classList := insert (str ''dark'') (classList t)\<rparr>
      else t\<lparr>mode := str ''light'', classList := classList t - {str ''dark''}\<rparr>)"

text \<open>\<open>useEffect(f, [mode])\<close> runs \<open>f\<close> after a render when it is the first one or
  \<open>mode\<close> differs from the value of the render before.\<close>

definition effect_due :: "theme \<Rightarrow> bool" where
  "effect_due t = (deps t \<noteq> Some (mode t))"

definition commit :: "theme \<Rightarrow> theme" where
  "commit t = effect (t\<lparr>deps := Some (mode t)\<rparr>)"

text \<open>Render and run effects until no effect is due; the result is the theme the
  provider settles on, if it does.\<close>

partial_function (option) settle :: "theme \<Rightarrow> theme option" where
  "settle t = (if effect_due t then settle (commit t) else Some t)"

section \<open>Concrete collaborators for the examples\<close>

datatype js_value = JsString jsstring | JsError jsstring jsstring

text \<open>
  \<open>JSON.parse\<close> on the empty text and on string literals without escapes: the first is
  a SyntaxError, the second the string between the quotes. The examples apply it to
  nothing else.
\<close>

definition JSON_parse_literal :: "jsstring \<Rightarrow> js_value + js_value" where
  "JSON_parse_literal s =
     (if 2 \<le> length s \<and> hd s = 0x22 \<and> last s = 0x22 \<and>
         list_all (\<lambda>u. u \<noteq> 0x22 \<and> u \<noteq> 0x5C \<and> 0x20 \<le> u) (butlast (tl s))
      then Inr (JsString (butlast (tl s)))
      else Inl (JsError (str ''SyntaxError'') (str ''Unexpected end of JSON input'')))"

text \<open>
  Modelled from the spec: \<open>QuestionSchema\<close> of \<open>@/lib/validation\<close> is not among the
  sources. The spec gives a required title, a required explanation with a minimum length
  (20 characters, in the words of the form), and a tags array that is present.
\<close>

definition spec_QuestionSchema :: "form_values \<Rightarrow> (jsstring \<times> field_error) list" where
  "spec_QuestionSchema vals =
     (if title vals = []
      then [(str ''title'', \<lparr>etype = str ''too_small'', message = str ''Required''\<rparr>)]
      else []) @
     (if length (explanation vals) < 20
      then [(str ''explanation'',
             \<lparr>etype = str ''too_small'', message = str ''Minimum 20 characters''\<rparr>)]
      else [])"

definition env0 :: "js_value env" where
  "env0 =
     \<lparr>mongoUserId = [0x22] @ str ''u1'' @ [0x22], pathname = str ''/ask-question'',
      JSON_parse = JSON_parse_literal, QuestionSchema = spec_QuestionSchema\<rparr>"

text \<open>Drafts and answers of \<open>createQuestion\<close> for the examples.\<close>

definition q_html :: "js_value question" where
  "q_html =
     initial\<lparr>fvalues := \<lparr>title = [], explanation = [], tags = [str ''css'']\<rparr>,
             tag_input := [0x20] @ str ''html'' @ [0x20],
             errors := [str ''tags'' \<mapsto> \<lparr>etype = str ''max'', message = str ''old''\<rparr>]\<rparr>"

definition q_long :: "js_value question" where
  "q_long =
     initial\<lparr>fvalues := \<lparr>title = [], explanation = [], tags = [str ''css'']\<rparr>,
             tag_input := str ''abcdefghijklmnop''\<rparr>"

definition q_three :: "js_value question" where
  "q_three =
     initial\<lparr>fvalues :=
       \<lparr>title = [], explanation = [], tags = [str ''css'', str ''html'', str ''js'']\<rparr>\<rparr>"

definition q_dup :: "js_value question" where
  "q_dup =
     initial\<lparr>fvalues := \<lparr>title = [], explanation = [], tags = [str ''css'']\<rparr>,
             tag_input := str ''css''\<rparr>"

definition draft0 :: form_values where
  "draft0 =
     \<lparr>title = str ''How to center a div?'',
      explanation = str ''I tried margin auto and flexbox.'', tags = [str ''css'']\<rparr>"

definition q_draft :: "js_value question" where
  "q_draft = initial\<lparr>fvalues := draft0\<rparr>"

definition env_unparsable :: "js_value env" where
  "env_unparsable = env0\<lparr>mongoUserId := []\<rparr>"

definition cq_resolve :: "js_value payload \<Rightarrow> js_value + unit" where
  "cq_resolve p = Inr ()"

definition cq_reject :: "js_value payload \<Rightarrow> js_value + unit" where
  "cq_reject p = Inl (JsError (str ''Error'') (str ''Failed to fetch''))"

definition evs_submit :: "js_value event list" where
  "evs_submit =
     [TypeTitle (str ''How to center a div?''),
      EditExplanation (str ''I tried margin auto and flexbox.''), Submit]"



definition evs_rejected :: "js_value event list" where
  "evs_rejected =
     evs_submit @ [Settle 0 (Inl (JsError (str ''Error'') (str ''Failed to fetch'')))]"

definition evs_four :: "js_value event list" where
  "evs_four =
     [TypeTag (str ''a''), KeyDownTag (str ''Enter''), TypeTag (str ''b''),
      KeyDownTag (str ''Enter''), TypeTag (str ''c''), KeyDownTag (str ''Enter''),
      TypeTag (str ''d''), KeyDownTag (str ''Enter'')]"

definition evs_css :: "js_value event list" where
  "evs_css =
     [TypeTag (str ''css''), KeyDownTag (str ''Enter''), TypeTag (str ''css''),
      KeyDownTag (str ''Enter'')]"

section \<open>Invariants of the transition system\<close>

text \<open>A continuation that, however the call settles, runs to its end without a
  further call, lets no exception out and leaves \<open>submitting\<close> false.\<close>

definition finishes :: "('v + unit \<Rightarrow> 'v prog) \<Rightarrow> bool" where
  "finishes k =
     (\<forall>r s. pending (advance (k r) s) = pending s
            \<and> unhandled (advance (k r) s) = unhandled s
            \<and> \<not> submitting (ui (advance (k r) s)))"

text \<open>No exception has left a handler, and every outstanding call has such a
  continuation.\<close>

definition calm :: "'v sys \<Rightarrow> bool" where
  "calm s = (unhandled s = [] \<and> list_all finishes (pending s))"


text \<open>The events that are neither a submission, nor a call settling, nor a render.\<close>

definition editing :: "'v event \<Rightarrow> bool" where
  "editing ev = (case ev of Submit \<Rightarrow> False | Settle i r \<Rightarrow> False | Render \<Rightarrow> False
                 | _ \<Rightarrow> True)"

section \<open>The tag editor: properties\<close>

lemma tags_field_simps:
  "name (tags_field q) = str ''tags''" "fvalue (tags_field q) = tags (fvalues q)"
  by (simp_all add: tags_field_def)

lemma filter_neq_single:
  assumes "count_list xs t = 1"
  shows "\<exists>pre post. xs = pre @ t # post \<and> filter (\<lambda>u. u \<noteq> t) xs = pre @ post
           \<and> t \<notin> set pre \<and> t \<notin> set post"
proof -
  from assms have "t \<in> set xs"
    by (metis count_list_0_iff zero_neq_one)
  then obtain pre post where xs: "xs = pre @ t # post" and pre: "t \<notin> set pre"
    by (auto dest: split_list_first)
  from assms xs have "count_list pre t + count_list post t = 0" by simp
  then have post: "t \<notin> set post" by (simp add: count_list_0_iff)
  have "filter (\<lambda>u. u \<noteq> t) pre = pre" "filter (\<lambda>u. u \<noteq> t) post = post"
    using pre post by (auto simp: filter_id_conv)
  then have "filter (\<lambda>u. u \<noteq> t) xs = pre @ post"
    using xs by simp
  with xs pre post show ?thesis by blast
qed

text \<open>
  C2. Enter in the tag input, when the trimmed text is not empty, has at most 15 code
  units and is not among the tags: the trimmed text is appended after the tags there
  were, which are kept in their order (so the sequence is one longer), the input is
  emptied and the error of the tags field is removed.
\<close>

theorem add_tag_appends:
  assumes "trim (tag_input q) \<noteq> []"
    and "length (trim (tag_input q)) \<le> 15"
    and "trim (tag_input q) \<notin> set (tags (fvalues q))"
  shows "tags (fvalues (snd (handleInoutKeyDown env (str ''Enter'') (tags_field q) q)))
           = tags (fvalues q) @ [trim (tag_input q)]
       \<and> length (tags (fvalues (snd (handleInoutKeyDown env (str ''Enter'') (tags_field q) q))))
           = length (tags (fvalues q)) + 1
       \<and> take (length (tags (fvalues q)))
            (tags (fvalues (snd (handleInoutKeyDown env (str ''Enter'') (tags_field q) q))))
           = tags (fvalues q)
       \<and> tag_input (snd (handleInoutKeyDown env (str ''Enter'') (tags_field q) q)) = []
       \<and> errors (snd (handleInoutKeyDown env (str ''Enter'') (tags_field q) q)) (str ''tags'')
           = None"
proof -
  have "snd (handleInoutKeyDown env (str ''Enter'') (tags_field q) q)
        = clearErrors (str ''tags'')
            ((setValue_tags (tags (fvalues q) @ [trim (tag_input q)]) q)\<lparr>tag_input := []\<rparr>)"
    using assms by (simp add: handleInoutKeyDown_def tags_field_simps Let_def)
  then show ?thesis
    by (simp add: clearErrors_def setValue_tags_def)
qed

theorem add_tag_appends_witness:
  "trim (tag_input q_html) \<noteq> [] \<and> length (trim (tag_input q_html)) \<le> 15
   \<and> trim (tag_input q_html) \<notin> set (tags (fvalues q_html))
   \<and> errors q_html (str ''tags'') \<noteq> None
   \<and> tags (fvalues (snd (handleInoutKeyDown env0 (str ''Enter'') (tags_field q_html) q_html)))
       = [str ''css'', str ''html'']
   \<and> tag_input (snd (handleInoutKeyDown env0 (str ''Enter'') (tags_field q_html) q_html)) = []
   \<and> errors (snd (handleInoutKeyDown env0 (str ''Enter'') (tags_field q_html) q_html))
       (str ''tags'') = None"
proof -
  have t: "trim (tag_input q_html) = str ''html''"
    by (simp add: q_html_def trim_def str_def isWhiteSpace_def)
  have h1: "trim (tag_input q_html) \<noteq> []" and h2: "length (trim (tag_input q_html)) \<le> 15"
    unfolding t by (simp_all add: str_def)
  have h3: "trim (tag_input q_html) \<notin> set (tags (fvalues q_html))"
    unfolding t by (simp add: q_html_def str_def)
  have e: "errors q_html (str ''tags'') \<noteq> None" "tags (fvalues q_html) = [str ''css'']"
    by (simp_all add: q_html_def)
  show ?thesis
    using add_tag_appends [OF h1 h2 h3, of env0] h1 h2 h3 e unfolding t by simp
qed

text \<open>
  C3. Enter in the tag input when the trimmed text has more than 15 code units: the tags
  stay as they are and the tags field gets the error of type max with the message
  "Tag length must be less than 15 characters".
\<close>

theorem long_tag_rejected:
  assumes "length (trim (tag_input q)) > 15"
  shows "tags (fvalues (snd (handleInoutKeyDown env (str ''Enter'') (tags_field q) q)))
           = tags (fvalues q)
       \<and> errors (snd (handleInoutKeyDown env (str ''Enter'') (tags_field q) q)) (str ''tags'')
           = Some \<lparr>etype = str ''max'',
                   message = str ''Tag length must be less than 15 characters''\<rparr>"
proof -
  from assms have "trim (tag_input q) \<noteq> []" by auto
  with assms have "snd (handleInoutKeyDown env (str ''Enter'') (tags_field q) q)
        = setError (str ''tags'')
            \<lparr>etype = str ''max'',
             message = str ''Tag length must be less than 15 characters''\<rparr> q"
    by (simp add: handleInoutKeyDown_def tags_field_simps Let_def)
  then show ?thesis
    by (simp add: setError_def)
qed

theorem long_tag_rejected_witness:
  "length (trim (tag_input q_long)) > 15
   \<and> tags (fvalues (snd (handleInoutKeyDown env0 (str ''Enter'') (tags_field q_long) q_long)))
       = [str ''css'']
   \<and> errors (snd (handleInoutKeyDown env0 (str ''Enter'') (tags_field q_long) q_long))
       (str ''tags'')
       = Some \<lparr>etype = str ''max'',
               message = str ''Tag length must be less than 15 characters''\<rparr>"
proof -
  have h: "length (trim (tag_input q_long)) > 15"
    by (simp add: q_long_def trim_def str_def isWhiteSpace_def)
  have e: "tags (fvalues q_long) = [str ''css'']"
    by (simp add: q_long_def)
  show ?thesis
    using long_tag_rejected [OF h, of env0] h e by simp
qed

text \<open>
  C5. Removing a tag that occurs exactly once in a sequence of length n leaves n - 1
  tags, the tag is gone, and the result is the sequence with that one occurrence cut
  out: the tags before it and the tags after it, in their order.
\<close>

theorem remove_tag_once:
  assumes "count_list (tags (fvalues q)) t = 1"
  shows "Suc (length (tags (fvalues (handleTagRemove t (tags_field q) q))))
           = length (tags (fvalues q))
       \<and> t \<notin> set (tags (fvalues (handleTagRemove t (tags_field q) q)))
       \<and> (\<exists>pre post. tags (fvalues q) = pre @ t # post
            \<and> tags (fvalues (handleTagRemove t (tags_field q) q)) = pre @ post)"
proof -
  have r: "tags (fvalues (handleTagRemove t (tags_field q) q))
           = filter (\<lambda>u. u \<noteq> t) (tags (fvalues q))"
    by (simp add: handleTagRemove_def setValue_tags_def tags_field_simps)
  from filter_neq_single [OF assms] obtain pre post where
    xs: "tags (fvalues q) = pre @ t # post"
    and f: "filter (\<lambda>u. u \<noteq> t) (tags (fvalues q)) = pre @ post"
    and n: "t \<notin> set pre" "t \<notin> set post"
    by blast
  have "Suc (length (pre @ post)) = length (pre @ t # post)" by simp
  moreover have "t \<notin> set (pre @ post)" using n by simp
  ultimately show ?thesis unfolding r f using xs by auto
qed

theorem remove_tag_once_witness:
  "count_list (tags (fvalues q_three)) (str ''html'') = 1
   \<and> length (tags (fvalues q_three)) = 3
   \<and> length (tags (fvalues (handleTagRemove (str ''html'') (tags_field q_three) q_three))) = 2
   \<and> str ''html'' \<notin> set (tags (fvalues (handleTagRemove (str ''html'') (tags_field q_three) q_three)))"
proof -
  have h: "count_list (tags (fvalues q_three)) (str ''html'') = 1"
    by (simp add: q_three_def str_def)
  have l: "length (tags (fvalues q_three)) = 3"
    by (simp add: q_three_def)
  show ?thesis
    using remove_tag_once [OF h] h l by simp
qed

section \<open>Traces of the form\<close>

lemma run_snoc: "run env (evs @ [ev]) s = step env ev (run env evs s)"
  by (simp add: run_def)

lemma run_Nil: "run env [] s = s"
  by (simp add: run_def)

lemma perform_fvalues: "fvalues (perform a q) = fvalues q"
  by (cases a) simp_all

lemma advance_fvalues: "fvalues (ui (advance m s)) = fvalues (ui s)"
  by (induction m arbitrary: s) (simp_all add: perform_fvalues)

lemma handleSubmit_fvalues: "fvalues (snd (handleSubmit env q)) = fvalues q"
  by (simp add: handleSubmit_def Let_def)

lemma submit_event_fvalues: "fvalues (ui (submit_event env s)) = fvalues (ui s)"
  using handleSubmit_fvalues [of env "ui s"]
  by (auto simp: submit_event_def advance_fvalues split: prod.splits)

lemma keydown_distinct:
  assumes "distinct (tags (fvalues q))"
  shows "distinct (tags (fvalues (snd (handleInoutKeyDown env k (tags_field q) q))))"
  using assms
  by (simp add: handleInoutKeyDown_def tags_field_def Let_def setError_def clearErrors_def
      setValue_tags_def trigger_def)

lemma step_distinct:
  assumes "distinct (tags (fvalues (ui s)))"
  shows "distinct (tags (fvalues (ui (step env ev s))))"
proof (cases ev)
  case (KeyDownTag k)
  obtain b q' where h: "handleInoutKeyDown env k (tags_field (ui s)) (ui s) = (b, q')"
    by (cases "handleInoutKeyDown env k (tags_field (ui s)) (ui s)")
  from keydown_distinct [OF assms, of env k] h have "distinct (tags (fvalues q'))" by simp
  then show ?thesis
    using KeyDownTag h by (simp add: submit_event_fvalues)
next
  case (ClickTag t)
  then show ?thesis
    using assms by (simp add: handleTagRemove_def setValue_tags_def tags_field_def)
next
  case Submit
  then show ?thesis using assms by (simp add: submit_event_fvalues)
next
  case (Settle i r)
  then show ?thesis using assms by (simp add: advance_fvalues)
qed (use assms in simp_all)

lemma run_distinct: "distinct (tags (fvalues (ui (run env evs sys0))))"
proof (induction evs rule: rev_induct)
  case Nil
  show ?case by (simp add: run_Nil sys0_def initial_def)
next
  case (snoc ev evs)
  then show ?case by (simp add: run_snoc step_distinct)
qed

text \<open>
  C1. The form's description says "Add up to 3 tags", and the add path has no guard on
  the number of tags: from the empty draft, typing a, b, c and d into the tag input,
  each followed by Enter, leaves four tags.
\<close>

theorem four_tags_added:
  "tags (fvalues (ui (run env0 evs_four sys0))) = [str ''a'', str ''b'', str ''c'', str ''d'']
   \<and> length (tags (fvalues (ui (run env0 evs_four sys0)))) = 4"
  by (simp add: evs_four_def run_def sys0_def initial_def handleInoutKeyDown_def
      tags_field_def Let_def trim_def isWhiteSpace_def str_def setValue_tags_def
      clearErrors_def)

text \<open>
  C4. Enter in the tag input when the trimmed text is already among the tags leaves the
  tags as they are, and in every state the form reaches from its initial one the tags
  are pairwise different.
\<close>

theorem duplicate_tag_ignored:
  "(trim (tag_input q) \<in> set (tags (fvalues q))
      \<longrightarrow> tags (fvalues (snd (handleInoutKeyDown env (str ''Enter'') (tags_field q) q)))
            = tags (fvalues q))
   \<and> distinct (tags (fvalues (ui (run env evs sys0))))"
proof -
  have "tags (fvalues (snd (handleInoutKeyDown env (str ''Enter'') (tags_field q) q)))
        = tags (fvalues q)"
    if "trim (tag_input q) \<in> set (tags (fvalues q))"
    using that
    by (simp add: handleInoutKeyDown_def tags_field_simps Let_def setError_def trigger_def)
  then show ?thesis
    using run_distinct [of env evs] by blast
qed

theorem duplicate_tag_ignored_witness:
  "trim (tag_input q_dup) \<in> set (tags (fvalues q_dup))
   \<and> tags (fvalues (snd (handleInoutKeyDown env0 (str ''Enter'') (tags_field q_dup) q_dup)))
       = [str ''css'']
   \<and> tags (fvalues (ui (run env0 evs_css sys0))) = [str ''css'']
   \<and> distinct (tags (fvalues (ui (run env0 evs_css sys0))))"
proof -
  have h: "trim (tag_input q_dup) \<in> set (tags (fvalues q_dup))"
    by (simp add: q_dup_def trim_def str_def isWhiteSpace_def)
  have t: "tags (fvalues q_dup) = [str ''css'']"
    by (simp add: q_dup_def)
  have r: "tags (fvalues (ui (run env0 evs_css sys0))) = [str ''css'']"
    by (simp add: evs_css_def run_def sys0_def initial_def handleInoutKeyDown_def
        tags_field_def Let_def trim_def isWhiteSpace_def str_def setValue_tags_def
        clearErrors_def)
  show ?thesis
    using duplicate_tag_ignored [where q = q_dup and env = env0 and evs = evs_css] h t r
    by simp
qed

section \<open>Submission\<close>

lemma exec_onSubmit_unparsed:
  assumes "JSON_parse env (mongoUserId env) = Inl e"
  shows "exec cq (onSubmit env vals) q
       = (None, q\<lparr>submitting := False, console := console q @ [e]\<rparr>)"
  using assms by (simp add: onSubmit_def)

lemma exec_onSubmit_rejected:
  assumes "JSON_parse env (mongoUserId env) = Inr author"
    and "cq \<lparr>p_title = title vals, p_content = explanation vals, p_tags = tags vals,
             p_author = author, p_path = pathname env\<rparr> = Inl e"
  shows "exec cq (onSubmit env vals) q
       = (None, q\<lparr>submitting := False, console := console q @ [e],
                  requests := requests q @ [\<lparr>p_title = title vals,
                    p_content = explanation vals, p_tags = tags vals, p_author = author,
                    p_path = pathname env\<rparr>]\<rparr>)"
  using assms by (simp add: onSubmit_def)

lemma exec_onSubmit_resolved:
  assumes "JSON_parse env (mongoUserId env) = Inr author"
    and "cq \<lparr>p_title = title vals, p_content = explanation vals, p_tags = tags vals,
             p_author = author, p_path = pathname env\<rparr> = Inr u"
  shows "exec cq (onSubmit env vals) q
       = (None, q\<lparr>submitting := False, navigations := navigations q @ [str ''/''],
                  requests := requests q @ [\<lparr>p_title = title vals,
                    p_content = explanation vals, p_tags = tags vals, p_author = author,
                    p_path = pathname env\<rparr>]\<rparr>)"
  using assms by (simp add: onSubmit_def)

lemma submit_valid:
  assumes "QuestionSchema env (fvalues q) = []"
  shows "submit cq env q = exec cq (onSubmit env (fvalues q)) (q\<lparr>errors := Map.empty\<rparr>)"
  using assms by (simp add: submit_def handleSubmit_def)

lemma submit_rejected:
  assumes "QuestionSchema env (fvalues q) = []"
    and "JSON_parse env (mongoUserId env) = Inr author"
    and "cq \<lparr>p_title = title (fvalues q), p_content = explanation (fvalues q),
             p_tags = tags (fvalues q), p_author = author, p_path = pathname env\<rparr> = Inl e"
  shows "submit cq env q
       = (None, q\<lparr>errors := Map.empty, submitting := False, console := console q @ [e],
            requests := requests q @ [\<lparr>p_title = title (fvalues q),
              p_content = explanation (fvalues q), p_tags = tags (fvalues q),
              p_author = author, p_path = pathname env\<rparr>]\<rparr>)"
  by (simp add: submit_valid [OF assms(1)]
        exec_onSubmit_rejected [where cq = cq, OF assms(2) assms(3)])

lemma submit_resolved:
  assumes "QuestionSchema env (fvalues q) = []"
    and "JSON_parse env (mongoUserId env) = Inr author"
    and "cq \<lparr>p_title = title (fvalues q), p_content = explanation (fvalues q),
             p_tags = tags (fvalues q), p_author = author, p_path = pathname env\<rparr> = Inr u"
  shows "submit cq env q
       = (None, q\<lparr>errors := Map.empty, submitting := False,
            navigations := navigations q @ [str ''/''],
            requests := requests q @ [\<lparr>p_title = title (fvalues q),
              p_content = explanation (fvalues q), p_tags = tags (fvalues q),
              p_author = author, p_path = pathname env\<rparr>]\<rparr>)"
  by (simp add: submit_valid [OF assms(1)]
        exec_onSubmit_resolved [where cq = cq, OF assms(2) assms(3)])

lemma submit_requests:
  assumes "QuestionSchema env (fvalues q) = []"
    and "JSON_parse env (mongoUserId env) = Inr author"
  shows "requests (snd (submit cq env q))
       = requests q @ [\<lparr>p_title = title (fvalues q), p_content = explanation (fvalues q),
                        p_tags = tags (fvalues q), p_author = author,
                        p_path = pathname env\<rparr>]"
proof (cases "cq \<lparr>p_title = title (fvalues q), p_content = explanation (fvalues q),
                  p_tags = tags (fvalues q), p_author = author, p_path = pathname env\<rparr>")
  case (Inl e)
  show ?thesis
    by (simp add: submit_rejected [where cq = cq, OF assms Inl])
next
  case (Inr u)
  show ?thesis
    by (simp add: submit_resolved [where cq = cq, OF assms Inr])
qed

lemma env0_parse: "JSON_parse env0 (mongoUserId env0) = Inr (JsString (str ''u1''))"
  by (simp add: env0_def JSON_parse_literal_def str_def)

lemma env0_valid: "QuestionSchema env0 (fvalues q_draft) = []"
  by (simp add: env0_def q_draft_def draft0_def spec_QuestionSchema_def str_def)

lemma q_draft_simps:
  "fvalues q_draft = draft0" "requests q_draft = []" "navigations q_draft = []"
  "console q_draft = []"
  by (simp_all add: q_draft_def initial_def)

text \<open>
  C6, as the claim has it, fails: the draft \<open>draft0\<close> passes the schema, and with the
  empty string for \<open>mongoUserId\<close> the call of \<open>JSON.parse\<close> throws inside the
  \<open>try\<close> block, so that \<open>createQuestion\<close> is not called at all and nothing navigates.
\<close>

theorem submit_unparsable_author:
  "QuestionSchema env_unparsable (fvalues q_draft) = []
   \<and> requests (snd (submit cq_resolve env_unparsable q_draft)) = []
   \<and> navigations (snd (submit cq_resolve env_unparsable q_draft)) = []"
proof -
  have v: "QuestionSchema env_unparsable (fvalues q_draft) = []"
    by (simp add: env_unparsable_def env0_def q_draft_def draft0_def
        spec_QuestionSchema_def str_def)
  have p: "JSON_parse env_unparsable (mongoUserId env_unparsable)
           = Inl (JsError (str ''SyntaxError'') (str ''Unexpected end of JSON input''))"
    by (simp add: env_unparsable_def env0_def JSON_parse_literal_def)
  have "submit cq_resolve env_unparsable q_draft
        = (None, q_draft\<lparr>errors := Map.empty, submitting := False,
             console := console q_draft
               @ [JsError (str ''SyntaxError'') (str ''Unexpected end of JSON input'')]\<rparr>)"
    by (simp add: submit_valid [OF v] exec_onSubmit_unparsed [OF p])
  then show ?thesis
    using v by (simp add: q_draft_simps)
qed

text \<open>
  C6, amended. For a draft that passes the schema, and a \<open>mongoUserId\<close> that
  \<open>JSON.parse\<close> accepts: submitting calls \<open>createQuestion\<close> exactly once, with the
  title, the explanation as content, the tags, the parsed \<open>mongoUserId\<close> as author and
  the current path; and if the call is fulfilled, the router is sent to "/".
\<close>

theorem submit_valid_draft:
  assumes "QuestionSchema env (fvalues q) = []"
    and "JSON_parse env (mongoUserId env) = Inr author"
  shows "requests (snd (submit cq env q))
           = requests q @ [\<lparr>p_title = title (fvalues q), p_content = explanation (fvalues q),
                            p_tags = tags (fvalues q), p_author = author,
                            p_path = pathname env\<rparr>]
       \<and> (cq \<lparr>p_title = title (fvalues q), p_content = explanation (fvalues q),
               p_tags = tags (fvalues q), p_author = author, p_path = pathname env\<rparr> = Inr ()
            \<longrightarrow> navigations (snd (submit cq env q)) = navigations q @ [str ''/''])"
proof -
  have "navigations (snd (submit cq env q)) = navigations q @ [str ''/'']"
    if r: "cq \<lparr>p_title = title (fvalues q), p_content = explanation (fvalues q),
               p_tags = tags (fvalues q), p_author = author, p_path = pathname env\<rparr> = Inr ()"
    by (simp add: submit_resolved [where cq = cq, OF assms r])
  then show ?thesis
    using submit_requests [where cq = cq, OF assms] by blast
qed

theorem submit_valid_draft_witness:
  "QuestionSchema env0 (fvalues q_draft) = []
   \<and> JSON_parse env0 (mongoUserId env0) = Inr (JsString (str ''u1''))
   \<and> requests (snd (submit cq_resolve env0 q_draft))
       = [\<lparr>p_title = str ''How to center a div?'',
           p_content = str ''I tried margin auto and flexbox.'',
           p_tags = [str ''css''], p_author = JsString (str ''u1''),
           p_path = str ''/ask-question''\<rparr>]
   \<and> navigations (snd (submit cq_resolve env0 q_draft)) = [str ''/'']"
proof -
  have e: "pathname env0 = str ''/ask-question''"
    by (simp add: env0_def)
  show ?thesis
    using submit_valid_draft [where cq = cq_resolve, OF env0_valid env0_parse]
      env0_valid env0_parse
    by (simp add: q_draft_simps e draft0_def cq_resolve_def)
qed

subsection \<open>Submissions in flight\<close>


lemma advance_onSubmit:
  "unhandled (advance (onSubmit env vals) s) = unhandled s
   \<and> disabled (advance (onSubmit env vals) s) = disabled s
   \<and> ((pending (advance (onSubmit env vals) s) = pending s
         \<and> \<not> submitting (ui (advance (onSubmit env vals) s)))
      \<or> (\<exists>k. pending (advance (onSubmit env vals) s) = pending s @ [k] \<and> finishes k
            \<and> submitting (ui (advance (onSubmit env vals) s))))"
proof (cases "JSON_parse env (mongoUserId env)")
  case (Inl e)
  then show ?thesis
    by (simp add: onSubmit_def)
next
  case (Inr a)
  have "finishes (\<lambda>r. try_finally
          (try_catch (case r of Inl error \<Rightarrow> Throw error
                      | Inr _ \<Rightarrow> Act (RouterPush (str ''/'')) Return)
             (\<lambda>error. Act (ConsoleLog error) Return))
          (Act (SetSubmitting False) Return))"
    by (simp add: finishes_def split: sum.split)
  then show ?thesis
    using Inr by (simp add: onSubmit_def)
qed

lemma submit_event_effect:
  "unhandled (submit_event env s) = unhandled s
   \<and> disabled (submit_event env s) = disabled s
   \<and> ((pending (submit_event env s) = pending s
         \<and> (disabled s \<or> submitting (ui s) \<or> \<not> submitting (ui (submit_event env s))))
      \<or> (\<exists>k. pending (submit_event env s) = pending s @ [k] \<and> finishes k
            \<and> submitting (ui (submit_event env s))))"
proof (cases "disabled s")
  case True
  then show ?thesis by (simp add: submit_event_def)
next
  case False
  show ?thesis
  proof (cases "QuestionSchema env (fvalues (ui s)) = []")
    case True
    then have "submit_event env s
        = advance (onSubmit env (fvalues (ui s))) (s\<lparr>ui := (ui s)\<lparr>errors := Map.empty\<rparr>\<rparr>)"
      using False by (simp add: submit_event_def handleSubmit_def)
    then show ?thesis
      using advance_onSubmit [of env "fvalues (ui s)" "s\<lparr>ui := (ui s)\<lparr>errors := Map.empty\<rparr>\<rparr>"]
      by auto
  next
    case invalid: False
    then show ?thesis
      using False by (simp add: submit_event_def handleSubmit_def)
  qed
qed

lemma keydown_Enter_prevented:
  "fst (handleInoutKeyDown env (str ''Enter'') (tags_field q) q)"
  by (simp add: handleInoutKeyDown_def tags_field_def Let_def)

lemma keydown_submitting:
  "submitting (snd (handleInoutKeyDown env k fld q)) = submitting q"
  by (simp add: handleInoutKeyDown_def Let_def setError_def clearErrors_def
      setValue_tags_def trigger_def)

lemma step_KeyDownTag:
  "step env (KeyDownTag k) s
   = s\<lparr>ui := snd (handleInoutKeyDown env k (tags_field (ui s)) (ui s))\<rparr>"
proof -
  obtain b q' where h: "handleInoutKeyDown env k (tags_field (ui s)) (ui s) = (b, q')"
    by (cases "handleInoutKeyDown env k (tags_field (ui s)) (ui s)")
  have "k = str ''Enter'' \<Longrightarrow> b"
    using keydown_Enter_prevented [of env "ui s"] h by simp
  then show ?thesis
    using h by auto
qed

text \<open>Editing events leave \<open>submitting\<close>, the button and the outstanding calls as they
  are.\<close>

lemma step_editing:
  assumes "editing ev"
  shows "submitting (ui (step env ev s)) = submitting (ui s)
       \<and> disabled (step env ev s) = disabled s
       \<and> pending (step env ev s) = pending s
       \<and> unhandled (step env ev s) = unhandled s"
proof (cases ev)
  case (KeyDownTag k)
  show ?thesis
    unfolding KeyDownTag step_KeyDownTag by (simp add: keydown_submitting)
next
  case (ClickTag t)
  then show ?thesis
    by (simp add: handleTagRemove_def setValue_tags_def)
qed (use assms in \<open>simp_all add: editing_def\<close>)

lemma step_Settle:
  assumes "i < length (pending s)" and "finishes (pending s ! i)"
  shows "unhandled (step env (Settle i r) s) = unhandled s
       \<and> pending (step env (Settle i r) s) = take i (pending s) @ drop (Suc i) (pending s)
       \<and> \<not> submitting (ui (step env (Settle i r) s))"
  using assms by (simp add: finishes_def)

lemma step_calm:
  assumes "calm s"
  shows "calm (step env ev s)"
proof (cases "editing ev")
  case True
  then show ?thesis
    using assms step_editing [OF True, of env s] by (simp add: calm_def)
next
  case False
  then consider "ev = Submit" | i r where "ev = Settle i r" | "ev = Render"
    by (cases ev) (simp_all add: editing_def)
  then show ?thesis
  proof cases
    case 1
    then show ?thesis
      using assms submit_event_effect [of env s] by (auto simp: calm_def)
  next
    case 2
    show ?thesis
    proof (cases "i < length (pending s)")
      case True
      with assms have f: "finishes (pending s ! i)"
        by (simp add: calm_def list_all_length)
      have "list_all finishes (take i (pending s) @ drop (Suc i) (pending s))"
        using assms by (auto simp: calm_def list_all_iff dest: in_set_takeD in_set_dropD)
      then show ?thesis
        using assms step_Settle [where env = env and r = r, OF True f] 2
        by (simp add: calm_def)
    next
      case False
      then show ?thesis using assms 2 by simp
    qed
  next
    case 3
    then show ?thesis using assms by (simp add: calm_def)
  qed
qed

lemma run_calm: "calm (run env evs sys0)"
proof (induction evs rule: rev_induct)
  case Nil
  show ?case by (simp add: run_Nil sys0_def calm_def)
next
  case (snoc ev evs)
  then show ?case by (simp add: run_snoc step_calm)
qed




text \<open>
  C7. \<open>onSubmit\<close> never ends with an exception and always ends with \<open>submitting\<close>
  false, whatever \<open>JSON.parse\<close> and \<open>createQuestion\<close> do; when the call is made and
  rejected with \<open>e\<close>, \<open>e\<close> is logged to the console. Over the traces of the form, no
  exception ever leaves a handler.
\<close>

theorem onSubmit_cleanup:
  "fst (exec cq (onSubmit env vals) q) = None
   \<and> submitting (snd (exec cq (onSubmit env vals) q)) = False
   \<and> (JSON_parse env (mongoUserId env) = Inr author
        \<and> cq \<lparr>p_title = title vals, p_content = explanation vals, p_tags = tags vals,
               p_author = author, p_path = pathname env\<rparr> = Inl e
      \<longrightarrow> console (snd (exec cq (onSubmit env vals) q)) = console q @ [e])
   \<and> unhandled (run env evs sys0) = []"
proof -
  have u: "unhandled (run env evs sys0) = []"
    using run_calm [of env evs] by (simp add: calm_def)
  show ?thesis
  proof (cases "JSON_parse env (mongoUserId env)")
    case (Inl x)
    then show ?thesis using u by (simp add: exec_onSubmit_unparsed)
  next
    case (Inr a)
    show ?thesis
    proof (cases "cq \<lparr>p_title = title vals, p_content = explanation vals,
                      p_tags = tags vals, p_author = a, p_path = pathname env\<rparr>")
      case (Inl x)
      show ?thesis
        using Inr Inl u by (auto simp: exec_onSubmit_rejected [where cq = cq, OF Inr Inl])
    next
      case r: (Inr v)
      show ?thesis
        using Inr r u by (auto simp: exec_onSubmit_resolved [where cq = cq, OF Inr r])
    qed
  qed
qed

theorem onSubmit_cleanup_witness:
  "JSON_parse env0 (mongoUserId env0) = Inr (JsString (str ''u1''))
   \<and> cq_reject \<lparr>p_title = title draft0, p_content = explanation draft0, p_tags = tags draft0,
         p_author = JsString (str ''u1''), p_path = pathname env0\<rparr>
       = Inl (JsError (str ''Error'') (str ''Failed to fetch''))
   \<and> fst (exec cq_reject (onSubmit env0 draft0) (q_draft\<lparr>submitting := True\<rparr>)) = None
   \<and> submitting (snd (exec cq_reject (onSubmit env0 draft0) (q_draft\<lparr>submitting := True\<rparr>)))
       = False
   \<and> console (snd (exec cq_reject (onSubmit env0 draft0) (q_draft\<lparr>submitting := True\<rparr>)))
       = [JsError (str ''Error'') (str ''Failed to fetch'')]
   \<and> unhandled (run env0 evs_rejected sys0) = []"
  using onSubmit_cleanup [where cq = cq_reject and env = env0 and vals = draft0
      and q = "q_draft\<lparr>submitting := True\<rparr>" and author = "JsString (str ''u1'')"
      and e = "JsError (str ''Error'') (str ''Failed to fetch'')" and evs = evs_rejected]
    env0_parse
  by (simp add: q_draft_simps cq_reject_def)

text \<open>
  C10. When the draft passes the schema, \<open>mongoUserId\<close> parses and \<open>createQuestion\<close>
  rejects: the router is not called, the draft's values are what they were,
  \<open>submitting\<close> is false again, and submitting once more sends the same payload.
\<close>

theorem rejected_submit_keeps_draft:
  assumes "QuestionSchema env (fvalues q) = []"
    and "JSON_parse env (mongoUserId env) = Inr author"
    and "cq \<lparr>p_title = title (fvalues q), p_content = explanation (fvalues q),
             p_tags = tags (fvalues q), p_author = author, p_path = pathname env\<rparr> = Inl e"
  shows "navigations (snd (submit cq env q)) = navigations q
       \<and> fvalues (snd (submit cq env q)) = fvalues q
       \<and> submitting (snd (submit cq env q)) = False
       \<and> requests (snd (submit cq' env (snd (submit cq env q))))
           = requests (snd (submit cq env q))
             @ [\<lparr>p_title = title (fvalues q), p_content = explanation (fvalues q),
                 p_tags = tags (fvalues q), p_author = author, p_path = pathname env\<rparr>]"
proof -
  note s = submit_rejected [where cq = cq, OF assms]
  have f: "fvalues (snd (submit cq env q)) = fvalues q"
    by (simp add: s)
  have v: "QuestionSchema env (fvalues (snd (submit cq env q))) = []"
    using assms(1) by (simp add: f)
  show ?thesis
    using submit_requests [where cq = cq', OF v assms(2)] unfolding f by (simp add: s)
qed

theorem rejected_submit_keeps_draft_witness:
  "QuestionSchema env0 (fvalues q_draft) = []
   \<and> JSON_parse env0 (mongoUserId env0) = Inr (JsString (str ''u1''))
   \<and> cq_reject \<lparr>p_title = title (fvalues q_draft), p_content = explanation (fvalues q_draft),
         p_tags = tags (fvalues q_draft), p_author = JsString (str ''u1''),
         p_path = pathname env0\<rparr> = Inl (JsError (str ''Error'') (str ''Failed to fetch''))
   \<and> navigations (snd (submit cq_reject env0 q_draft)) = []
   \<and> fvalues (snd (submit cq_reject env0 q_draft)) = draft0
   \<and> submitting (snd (submit cq_reject env0 q_draft)) = False"
proof -
  have r: "cq_reject \<lparr>p_title = title (fvalues q_draft),
         p_content = explanation (fvalues q_draft), p_tags = tags (fvalues q_draft),
         p_author = JsString (str ''u1''), p_path = pathname env0\<rparr>
       = Inl (JsError (str ''Error'') (str ''Failed to fetch''))"
    by (simp add: cq_reject_def)
  show ?thesis
    using rejected_submit_keeps_draft [where cq = cq_reject, OF env0_valid env0_parse r]
      env0_valid env0_parse r
    by (simp add: q_draft_simps)
qed




section \<open>The theme provider: properties\<close>

lemma effect_mode: "mode (effect t) \<noteq> mode t"
  by (auto simp: effect_def str_def)

lemma effect_dark:
  "(mode (effect t) = str ''dark'') = (mode t = str ''light'')"
  "(str ''dark'' \<in> classList (effect t)) = (mode (effect t) = str ''dark'')"
  by (auto simp: effect_def str_def)

lemma commit_due: "effect_due (commit t)"
proof -
  have "deps (commit t) = Some (mode t)"
    by (simp add: commit_def effect_def)
  moreover have "mode (commit t) \<noteq> mode t"
    using effect_mode [of "t\<lparr>deps := Some (mode t)\<rparr>"] by (simp add: commit_def)
  ultimately show ?thesis
    by (simp add: effect_due_def)
qed

lemma settle_Some_not_due:
  assumes "settle t = Some y"
  shows "\<not> effect_due t"
proof (rule settle.raw_induct [where P = "\<lambda>t y. \<not> effect_due t", OF _ assms])
  fix settle' :: "theme \<Rightarrow> theme option" and t y
  assume IH: "\<And>t y. settle' t = Some y \<Longrightarrow> \<not> effect_due t"
    and eq: "(if effect_due t then settle' (commit t) else Some t) = Some y"
  show "\<not> effect_due t"
  proof
    assume "effect_due t"
    with eq have "settle' (commit t) = Some y" by simp
    then have "\<not> effect_due (commit t)" by (rule IH)
    then show False using commit_due by simp
  qed
qed

lemma settle_due: "effect_due t \<Longrightarrow> settle t = None"
  using settle_Some_not_due [of t] by (cases "settle t") auto

lemma iter_due: "effect_due ((commit ^^ n) (theme0 cl))"
proof (cases n)
  case 0
  then show ?thesis by (simp add: effect_due_def theme0_def)
next
  case (Suc m)
  then show ?thesis using commit_due [of "(commit ^^ m) (theme0 cl)"] by simp
qed

lemma commit_mode:
  "mode (commit t) = (if mode t = str ''light'' then str ''dark'' else str ''light'')"
  by (simp add: commit_def effect_def)

lemma iter_mode:
  "mode ((commit ^^ n) (theme0 cl)) = (if even n then str ''light'' else str ''dark'')"
  by (induction n) (simp_all add: commit_mode theme0_def str_def)

text \<open>
  C9. From the first render the provider never settles: after any number of renders the
  effect is due again, the mode being "light" after an even number of them and "dark"
  after an odd number. Each run of the effect changes the mode, to "dark" exactly from
  "light", and leaves the class "dark" on the document element exactly when the new mode
  is "dark".
\<close>

theorem theme_flips_forever:
  "settle (theme0 cl) = None
   \<and> effect_due ((commit ^^ n) (theme0 cl))
   \<and> mode ((commit ^^ n) (theme0 cl)) = (if even n then str ''light'' else str ''dark'')
   \<and> mode (effect t) \<noteq> mode t
   \<and> (mode (effect t) = str ''dark'') = (mode t = str ''light'')
   \<and> (str ''dark'' \<in> classList (effect t)) = (mode (effect t) = str ''dark'')"
  using settle_due [OF iter_due [of 0 cl]] iter_due [of n cl] iter_mode [of n cl]
    effect_mode [of t] effect_dark [of t]
  by simp

theorem theme_flips_forever_witness:
  "settle (theme0 {}) = None
   \<and> effect_due ((commit ^^ 3) (theme0 {}))
   \<and> mode ((commit ^^ 3) (theme0 {})) = str ''dark''
   \<and> mode (effect (theme0 {})) = str ''dark''
   \<and> str ''dark'' \<in> classList (effect (theme0 {}))"
proof -
  have m: "mode (theme0 {}) = str ''light''"
    by (simp add: theme0_def)
  show ?thesis
    using theme_flips_forever [of "{}" 3 "theme0 {}"] m by simp
qed

end
